theory Spec2Isabelle
  imports Main "HOL-Library.Word"
begin

unbundle bit_operations_syntax

section \<open>Go values as package reflect presents them\<close>

text \<open>
  The deep-clone engine of \<^verbatim>\<open>util/scopier/scopier.go\<close> works on \<^verbatim>\<open>reflect.Value\<close>s.
  A Go type is a finite tree; a defined (named) type is referred to by its name and
  resolved in a type environment, which also lists its methods.
\<close>

datatype ty =
    TBool | TInt | TInt8 | TInt16 | TInt32 | TInt64
  | TUint | TUint8 | TUint16 | TUint32 | TUint64 | TUintptr
  | TFloat32 | TFloat64 | TComplex64 | TComplex128 | TString
  | TArray nat ty | TSlice ty | TMap ty ty | TPtr ty
  | TStruct "(string \<times> bool \<times> ty) list"
  | TFunc string | TIface "string list" | TChan ty | TUnsafePointer
  | TNamed string

text \<open>
  A struct field is (name, exported, type). An environment entry is
  (name, underlying type, methods with value receiver, methods with pointer receiver).
\<close>

type_synonym tenv = "(string \<times> ty \<times> string list \<times> string list) list"

text \<open>An address is an allocation (an index into the heap) and a path of field or
  element indices into the value stored there.\<close>

type_synonym addr = "nat \<times> nat list"

text \<open>IEEE 754 binary32 and binary64 data as sign, biased exponent and fraction.\<close>

datatype f32 = F32 bool "8 word" "23 word"
datatype f64 = F64 bool "11 word" "52 word"

text \<open>The scalar kinds; \<^verbatim>\<open>int\<close> and \<^verbatim>\<open>uint\<close> are 64 bits wide (a 64-bit platform).\<close>

datatype scalar =
    SBool bool
  | SInt "64 word" | SInt8 "8 word" | SInt16 "16 word" | SInt32 "32 word" | SInt64 "64 word"
  | SUint "64 word" | SUint8 "8 word" | SUint16 "16 word" | SUint32 "32 word" | SUint64 "64 word"
  | SFloat32 f32 | SFloat64 f64 | SComplex64 f32 f32 | SComplex128 f64 f64
  | SString string

text \<open>
  A slice is (address of the backing array, offset, length, capacity); a map, a channel
  and a function value name a heap cell; a non-nil interface value carries its dynamic
  type.
\<close>

datatype val =
    VScalar scalar
  | VUintptr "64 word"
  | VArray "val list"
  | VSlice "(addr \<times> nat \<times> nat \<times> nat) option"
  | VMap "nat option"
  | VPtr "addr option"
  | VStruct "val list"
  | VFunc "nat option"
  | VIfaceNil
  | VIface ty val
  | VChan "nat option"
  | VUnsafePointer "addr option"

datatype cell = CVal val | CMap "(val \<times> val) list" | COpaque

text \<open>\<^verbatim>\<open>reflect.Value\<close>: the zero Value, or a type, the data, the address when the Value
  is addressable, and the read-only flag of a Value reached through an unexported field.\<close>

datatype rv = Invalid | RV ty val "addr option" bool

datatype kind =
    KInvalid | KBool | KInt | KInt8 | KInt16 | KInt32 | KInt64
  | KUint | KUint8 | KUint16 | KUint32 | KUint64 | KUintptr
  | KFloat32 | KFloat64 | KComplex64 | KComplex128
  | KArray | KChan | KFunc | KInterface | KMap | KPtr | KSlice | KString | KStruct
  | KUnsafePointer

text \<open>Outcomes: a result, a Go panic, an input that is not a well-formed Go heap
  (\<open>Stuck\<close>), or the recursion budget of the model exhausted.\<close>

datatype 'a res = Done 'a | Panic string | Stuck string | OutOfFuel

definition bnd :: "'a res \<Rightarrow> ('a \<Rightarrow> 'b res) \<Rightarrow> 'b res" where
  "bnd m f = (case m of Done x \<Rightarrow> f x | Panic s \<Rightarrow> Panic s | Stuck s \<Rightarrow> Stuck s
                | OutOfFuel \<Rightarrow> OutOfFuel)"

fun for_loop :: "'i list \<Rightarrow> ('i \<Rightarrow> 's \<Rightarrow> 's res) \<Rightarrow> 's \<Rightarrow> 's res" where
  "for_loop [] body s = Done s"
| "for_loop (i # is) body s = bnd (body i s) (for_loop is body)"

text \<open>The state threaded through a clone: the Go heap and the cloner's table
  \<^verbatim>\<open>ptrs map[reflect.Type]map[uintptr]reflect.Value\<close>.\<close>

record state =
  heap :: "cell list"
  ptrs :: "ty \<rightharpoonup> (addr \<rightharpoonup> rv)"

subsection \<open>Types\<close>

definition underlying :: "tenv \<Rightarrow> ty \<Rightarrow> ty option" where
  "underlying env t =
     (case t of TNamed n \<Rightarrow> (case map_of env n of Some (u, vm, pm) \<Rightarrow> Some u | None \<Rightarrow> None)
      | _ \<Rightarrow> Some t)"

definition has_name :: "ty \<Rightarrow> bool" where
  "has_name t = (case t of TArray n e \<Rightarrow> False | TSlice e \<Rightarrow> False | TMap k e \<Rightarrow> False
      | TPtr e \<Rightarrow> False | TStruct fs \<Rightarrow> False | TFunc s \<Rightarrow> False | TIface ms \<Rightarrow> False
      | TChan e \<Rightarrow> False | _ \<Rightarrow> True)"

definition methods_of :: "tenv \<Rightarrow> ty \<Rightarrow> string list" where
  "methods_of env t =
     (case t of
        TNamed n \<Rightarrow> (case map_of env n of
                       Some (u, vm, pm) \<Rightarrow> (case u of TIface ms \<Rightarrow> ms | _ \<Rightarrow> vm)
                     | None \<Rightarrow> [])
      | TPtr (TNamed n) \<Rightarrow> (case map_of env n of
                       Some (u, vm, pm) \<Rightarrow> (case u of TIface ms \<Rightarrow> [] | _ \<Rightarrow> vm @ pm)
                     | None \<Rightarrow> [])
      | TIface ms \<Rightarrow> ms
      | _ \<Rightarrow> [])"

definition implements :: "tenv \<Rightarrow> ty \<Rightarrow> ty \<Rightarrow> bool" where
  "implements env T V =
     (case underlying env T of
        Some (TIface ms) \<Rightarrow> list_all (\<lambda>m. List.member (methods_of env V) m) ms
      | _ \<Rightarrow> False)"

definition identical_underlying :: "tenv \<Rightarrow> ty \<Rightarrow> ty \<Rightarrow> bool" where
  "identical_underlying env T V =
     (case underlying env T of Some u \<Rightarrow> underlying env V = Some u | None \<Rightarrow> False)"

definition directlyAssignable :: "tenv \<Rightarrow> ty \<Rightarrow> ty \<Rightarrow> bool" where
  "directlyAssignable env T V =
     (if T = V then True
      else if has_name T \<and> has_name V then False
      else identical_underlying env T V)"

definition slice_elem :: "tenv \<Rightarrow> ty \<Rightarrow> ty option" where
  "slice_elem env t = (case underlying env t of Some (TSlice e) \<Rightarrow> Some e | _ \<Rightarrow> None)"

definition array_elem :: "tenv \<Rightarrow> ty \<Rightarrow> ty option" where
  "array_elem env t = (case underlying env t of Some (TArray n e) \<Rightarrow> Some e | _ \<Rightarrow> None)"

definition ptr_elem :: "tenv \<Rightarrow> ty \<Rightarrow> ty option" where
  "ptr_elem env t = (case underlying env t of Some (TPtr e) \<Rightarrow> Some e | _ \<Rightarrow> None)"

definition map_types :: "tenv \<Rightarrow> ty \<Rightarrow> (ty \<times> ty) option" where
  "map_types env t = (case underlying env t of Some (TMap k e) \<Rightarrow> Some (k, e) | _ \<Rightarrow> None)"

definition struct_fields :: "tenv \<Rightarrow> ty \<Rightarrow> (string \<times> bool \<times> ty) list option" where
  "struct_fields env t = (case underlying env t of Some (TStruct fs) \<Rightarrow> Some fs | _ \<Rightarrow> None)"

fun zero_val :: "tenv \<Rightarrow> nat \<Rightarrow> ty \<Rightarrow> val option" where
  "zero_val env k TBool = Some (VScalar (SBool False))"
| "zero_val env k TInt = Some (VScalar (SInt 0))"
| "zero_val env k TInt8 = Some (VScalar (SInt8 0))"
| "zero_val env k TInt16 = Some (VScalar (SInt16 0))"
| "zero_val env k TInt32 = Some (VScalar (SInt32 0))"
| "zero_val env k TInt64 = Some (VScalar (SInt64 0))"
| "zero_val env k TUint = Some (VScalar (SUint 0))"
| "zero_val env k TUint8 = Some (VScalar (SUint8 0))"
| "zero_val env k TUint16 = Some (VScalar (SUint16 0))"
| "zero_val env k TUint32 = Some (VScalar (SUint32 0))"
| "zero_val env k TUint64 = Some (VScalar (SUint64 0))"
| "zero_val env k TUintptr = Some (VUintptr 0)"
| "zero_val env k TFloat32 = Some (VScalar (SFloat32 (F32 False 0 0)))"
| "zero_val env k TFloat64 = Some (VScalar (SFloat64 (F64 False 0 0)))"
| "zero_val env k TComplex64 = Some (VScalar (SComplex64 (F32 False 0 0) (F32 False 0 0)))"
| "zero_val env k TComplex128 = Some (VScalar (SComplex128 (F64 False 0 0) (F64 False 0 0)))"
| "zero_val env k TString = Some (VScalar (SString []))"
| "zero_val env k (TArray n e) = map_option (\<lambda>z. VArray (replicate n z)) (zero_val env k e)"
| "zero_val env k (TSlice e) = Some (VSlice None)"
| "zero_val env k (TMap kt e) = Some (VMap None)"
| "zero_val env k (TPtr e) = Some (VPtr None)"
| "zero_val env k (TStruct fs) =
     map_option VStruct (those (map (\<lambda>f. zero_val env k (snd (snd f))) fs))"
| "zero_val env k (TFunc s) = Some (VFunc None)"
| "zero_val env k (TIface ms) = Some VIfaceNil"
| "zero_val env k (TChan e) = Some (VChan None)"
| "zero_val env k TUnsafePointer = Some (VUnsafePointer None)"
| "zero_val env 0 (TNamed n) = None"
| "zero_val env (Suc k) (TNamed n) =
     (case map_of env n of Some (u, vm, pm) \<Rightarrow> zero_val env k u | None \<Rightarrow> None)"


definition Zero :: "tenv \<Rightarrow> ty \<Rightarrow> rv res" where
  "Zero env t = (case zero_val env (length env) t of
                   Some d \<Rightarrow> Done (RV t d None False)
                 | None \<Rightarrow> Stuck ''type not declared'')"

subsection \<open>Conversions between float32 and float64\<close>

text \<open>
  \<^verbatim>\<open>float64(x)\<close> of a float32 is exact; \<^verbatim>\<open>float32(y)\<close> of a float64 rounds to the nearest
  float32, ties to even. Both quieten a NaN.
\<close>

fun bitlen :: "nat \<Rightarrow> nat" where
  "bitlen n = (if n = 0 then 0 else Suc (bitlen (n div 2)))"

definition round_half_even :: "nat \<Rightarrow> nat \<Rightarrow> nat" where
  "round_half_even n d =
     (if d = 0 then n
      else let q = n div 2 ^ d; r = n mod 2 ^ d; h = 2 ^ (d - 1)
           in if h < r \<or> (r = h \<and> odd q) then q + 1 else q)"

definition f32_to_f64 :: "f32 \<Rightarrow> f64" where
  "f32_to_f64 x =
     (case x of F32 s e m \<Rightarrow>
        if e = 255 then F64 s 2047 (if m = 0 then 0 else push_bit 29 (ucast m) OR push_bit 51 1)
        else if e = 0 then
          (if m = 0 then F64 s 0 0
           else let k = bitlen (unat m) - 1
                in F64 s (of_nat (874 + k)) (of_nat ((unat m - 2 ^ k) * 2 ^ (52 - k))))
        else F64 s (ucast e + 896) (push_bit 29 (ucast m)))"

definition f64_to_f32 :: "f64 \<Rightarrow> f32" where
  "f64_to_f32 x =
     (case x of F64 s e m \<Rightarrow>
        if e = 2047 then F32 s 255 (if m = 0 then 0 else ucast (drop_bit 29 m) OR push_bit 22 1)
        else
          let sig = (if e = 0 then unat m else 2 ^ 52 + unat m);
              ex = max (unat e) 1;
              qb = max (ex + 29) 926;
              n = round_half_even sig (qb - ex)
          in if n < 2 ^ 23 then F32 s 0 (of_nat n)
             else let eb = (if n = 2 ^ 24 then qb - 924 else qb - 925);
                      n' = (if n = 2 ^ 24 then 2 ^ 23 else n)
                  in if 255 \<le> eb then F32 s 255 0
                     else F32 s (of_nat eb) (of_nat (n' - 2 ^ 23)))"

definition is_nan32 :: "f32 \<Rightarrow> bool" where
  "is_nan32 x = (case x of F32 s e m \<Rightarrow> e = 255 \<and> m \<noteq> 0)"

subsection \<open>The operations of package reflect that the cloner calls\<close>

definition ValueOf :: "ty \<Rightarrow> val \<Rightarrow> rv" where
  \<comment> \<open>\<^verbatim>\<open>reflect.ValueOf(x)\<close> for \<open>x\<close> of static type \<open>T\<close>: an interface value is unpacked.\<close>
  "ValueOf T x = (case x of VIfaceNil \<Rightarrow> Invalid
                   | VIface dt d \<Rightarrow> RV dt d None False
                   | _ \<Rightarrow> RV T x None False)"

definition kind_of_val :: "val \<Rightarrow> kind" where
  "kind_of_val d =
     (case d of
        VScalar s \<Rightarrow>
          (case s of SBool b \<Rightarrow> KBool
           | SInt w \<Rightarrow> KInt | SInt8 w \<Rightarrow> KInt8 | SInt16 w \<Rightarrow> KInt16
           | SInt32 w \<Rightarrow> KInt32 | SInt64 w \<Rightarrow> KInt64
           | SUint w \<Rightarrow> KUint | SUint8 w \<Rightarrow> KUint8 | SUint16 w \<Rightarrow> KUint16
           | SUint32 w \<Rightarrow> KUint32 | SUint64 w \<Rightarrow> KUint64
           | SFloat32 x \<Rightarrow> KFloat32 | SFloat64 x \<Rightarrow> KFloat64
           | SComplex64 x y \<Rightarrow> KComplex64 | SComplex128 x y \<Rightarrow> KComplex128
           | SString x \<Rightarrow> KString)
      | VUintptr w \<Rightarrow> KUintptr
      | VArray xs \<Rightarrow> KArray
      | VSlice x \<Rightarrow> KSlice
      | VMap x \<Rightarrow> KMap
      | VPtr x \<Rightarrow> KPtr
      | VStruct xs \<Rightarrow> KStruct
      | VFunc x \<Rightarrow> KFunc
      | VIfaceNil \<Rightarrow> KInterface
      | VIface t x \<Rightarrow> KInterface
      | VChan x \<Rightarrow> KChan
      | VUnsafePointer x \<Rightarrow> KUnsafePointer)"

definition Kind :: "rv \<Rightarrow> kind" where
  "Kind v = (case v of Invalid \<Rightarrow> KInvalid | RV t d a ro \<Rightarrow> kind_of_val d)"

definition IsValid :: "rv \<Rightarrow> bool" where
  "IsValid v = (case v of Invalid \<Rightarrow> False | RV t d a ro \<Rightarrow> True)"

definition CanAddr :: "rv \<Rightarrow> bool" where
  "CanAddr v = (case v of Invalid \<Rightarrow> False | RV t d a ro \<Rightarrow> a \<noteq> None)"

definition CanSet :: "rv \<Rightarrow> bool" where
  "CanSet v = (case v of Invalid \<Rightarrow> False | RV t d a ro \<Rightarrow> a \<noteq> None \<and> \<not> ro)"

definition Type :: "rv \<Rightarrow> ty res" where
  "Type v = (case v of Invalid \<Rightarrow> Panic ''reflect: call of reflect.Value.Type on zero Value''
              | RV t d a ro \<Rightarrow> Done t)"

definition UnsafeAddr :: "rv \<Rightarrow> addr res" where
  "UnsafeAddr v = (case v of RV t d (Some a) ro \<Rightarrow> Done a
                    | _ \<Rightarrow> Panic ''reflect.Value.UnsafeAddr of unaddressable value'')"

definition IsNil :: "rv \<Rightarrow> bool res" where
  "IsNil v =
     (case v of
        Invalid \<Rightarrow> Panic ''reflect: call of reflect.Value.IsNil on zero Value''
      | RV t d a ro \<Rightarrow>
          (case d of
             VChan x \<Rightarrow> Done (x = None)
           | VFunc x \<Rightarrow> Done (x = None)
           | VMap x \<Rightarrow> Done (x = None)
           | VPtr x \<Rightarrow> Done (x = None)
           | VUnsafePointer x \<Rightarrow> Done (x = None)
           | VIfaceNil \<Rightarrow> Done True
           | VIface dt x \<Rightarrow> Done False
           | VSlice x \<Rightarrow> Done (x = None)
           | _ \<Rightarrow> Panic ''reflect: call of reflect.Value.IsNil on a value that cannot be nil''))"

definition Bool_of :: "rv \<Rightarrow> bool res" where
  "Bool_of v = (case v of RV t (VScalar (SBool b)) a ro \<Rightarrow> Done b
                 | _ \<Rightarrow> Panic ''reflect: call of reflect.Value.Bool on non-bool'')"

definition Int_of :: "rv \<Rightarrow> 64 word res" where
  \<comment> \<open>\<^verbatim>\<open>v.Int()\<close>: the value as an int64, sign-extended.\<close>
  "Int_of v =
     (case v of
        RV t (VScalar (SInt w)) a ro \<Rightarrow> Done (scast w)
      | RV t (VScalar (SInt8 w)) a ro \<Rightarrow> Done (scast w)
      | RV t (VScalar (SInt16 w)) a ro \<Rightarrow> Done (scast w)
      | RV t (VScalar (SInt32 w)) a ro \<Rightarrow> Done (scast w)
      | RV t (VScalar (SInt64 w)) a ro \<Rightarrow> Done (scast w)
      | _ \<Rightarrow> Panic ''reflect: call of reflect.Value.Int on non-int'')"

definition Uint_of :: "rv \<Rightarrow> 64 word res" where
  \<comment> \<open>\<^verbatim>\<open>v.Uint()\<close>: the value as a uint64, zero-extended.\<close>
  "Uint_of v =
     (case v of
        RV t (VScalar (SUint w)) a ro \<Rightarrow> Done (ucast w)
      | RV t (VScalar (SUint8 w)) a ro \<Rightarrow> Done (ucast w)
      | RV t (VScalar (SUint16 w)) a ro \<Rightarrow> Done (ucast w)
      | RV t (VScalar (SUint32 w)) a ro \<Rightarrow> Done (ucast w)
      | RV t (VScalar (SUint64 w)) a ro \<Rightarrow> Done (ucast w)
      | RV t (VUintptr w) a ro \<Rightarrow> Done (ucast w)
      | _ \<Rightarrow> Panic ''reflect: call of reflect.Value.Uint on non-uint'')"

definition Float_of :: "rv \<Rightarrow> f64 res" where
  \<comment> \<open>\<^verbatim>\<open>v.Float()\<close>: the value as a float64.\<close>
  "Float_of v =
     (case v of
        RV t (VScalar (SFloat32 x)) a ro \<Rightarrow> Done (f32_to_f64 x)
      | RV t (VScalar (SFloat64 x)) a ro \<Rightarrow> Done x
      | _ \<Rightarrow> Panic ''reflect: call of reflect.Value.Float on non-float'')"

definition Complex_of :: "rv \<Rightarrow> (f64 \<times> f64) res" where
  \<comment> \<open>\<^verbatim>\<open>v.Complex()\<close>: the value as a complex128.\<close>
  "Complex_of v =
     (case v of
        RV t (VScalar (SComplex64 x y)) a ro \<Rightarrow> Done (f32_to_f64 x, f32_to_f64 y)
      | RV t (VScalar (SComplex128 x y)) a ro \<Rightarrow> Done (x, y)
      | _ \<Rightarrow> Panic ''reflect: call of reflect.Value.Complex on non-complex'')"

definition String_of :: "rv \<Rightarrow> string res" where
  "String_of v = (case v of RV t (VScalar (SString s)) a ro \<Rightarrow> Done s
                   | _ \<Rightarrow> Stuck ''String of a non-string'')"


subsection \<open>The heap\<close>

fun rd_path :: "val \<Rightarrow> nat list \<Rightarrow> val option" where
  "rd_path v [] = Some v"
| "rd_path (VStruct vs) (i # p) = (if i < length vs then rd_path (vs ! i) p else None)"
| "rd_path (VArray vs) (i # p) = (if i < length vs then rd_path (vs ! i) p else None)"
| "rd_path v (i # p) = None"

fun wr_path :: "val \<Rightarrow> nat list \<Rightarrow> val \<Rightarrow> val option" where
  "wr_path v [] x = Some x"
| "wr_path (VStruct vs) (i # p) x =
     (if i < length vs then map_option (\<lambda>y. VStruct (vs[i := y])) (wr_path (vs ! i) p x)
      else None)"
| "wr_path (VArray vs) (i # p) x =
     (if i < length vs then map_option (\<lambda>y. VArray (vs[i := y])) (wr_path (vs ! i) p x)
      else None)"
| "wr_path v (i # p) x = None"

definition rd :: "cell list \<Rightarrow> addr \<Rightarrow> val option" where
  "rd h a = (if fst a < length h
             then (case h ! fst a of CVal v \<Rightarrow> rd_path v (snd a) | _ \<Rightarrow> None)
             else None)"

definition wr :: "cell list \<Rightarrow> addr \<Rightarrow> val \<Rightarrow> cell list option" where
  "wr h a x = (if fst a < length h
               then (case h ! fst a of
                       CVal v \<Rightarrow> map_option (\<lambda>y. h[fst a := CVal y]) (wr_path v (snd a) x)
                     | _ \<Rightarrow> None)
               else None)"

definition alloc :: "state \<Rightarrow> cell \<Rightarrow> state \<times> nat" where
  "alloc st c = (st\<lparr>heap := heap st @ [c]\<rparr>, length (heap st))"

subsection \<open>Navigation\<close>

definition Elem :: "tenv \<Rightarrow> cell list \<Rightarrow> rv \<Rightarrow> rv res" where
  \<comment> \<open>\<^verbatim>\<open>v.Elem()\<close> of an interface or a pointer; the pointee is addressable.\<close>
  "Elem env h v =
     (case v of
        Invalid \<Rightarrow> Panic ''reflect: call of reflect.Value.Elem on zero Value''
      | RV t d a ro \<Rightarrow>
          (case d of
             VIfaceNil \<Rightarrow> Done Invalid
           | VIface dt x \<Rightarrow> Done (RV dt x None ro)
           | VPtr None \<Rightarrow> Done Invalid
           | VPtr (Some p) \<Rightarrow>
               (case ptr_elem env t of
                  Some e \<Rightarrow>
                    (case rd h p of Some x \<Rightarrow> Done (RV e x (Some p) ro)
                     | None \<Rightarrow> Stuck ''dangling pointer'')
                | None \<Rightarrow> Stuck ''pointer data of a non-pointer type'')
           | _ \<Rightarrow> Panic ''reflect: call of reflect.Value.Elem on a non-pointer''))"

definition Len :: "cell list \<Rightarrow> rv \<Rightarrow> nat res" where
  "Len h v =
     (case v of
        Invalid \<Rightarrow> Panic ''reflect: call of reflect.Value.Len on zero Value''
      | RV t d a ro \<Rightarrow>
          (case d of
             VArray xs \<Rightarrow> Done (length xs)
           | VSlice None \<Rightarrow> Done 0
           | VSlice (Some (b, off, n, c)) \<Rightarrow> Done n
           | VScalar (SString x) \<Rightarrow> Done (length x)
           | VMap None \<Rightarrow> Done 0
           | VMap (Some m) \<Rightarrow>
               (if m < length h then (case h ! m of CMap kvs \<Rightarrow> Done (length kvs)
                                      | _ \<Rightarrow> Stuck ''not a map cell'')
                else Stuck ''dangling map'')
           | _ \<Rightarrow> Panic ''reflect: call of reflect.Value.Len on a value without length''))"

definition Index :: "tenv \<Rightarrow> cell list \<Rightarrow> rv \<Rightarrow> nat \<Rightarrow> rv res" where
  "Index env h v i =
     (case v of
        Invalid \<Rightarrow> Panic ''reflect: call of reflect.Value.Index on zero Value''
      | RV t d a ro \<Rightarrow>
          (case d of
             VSlice None \<Rightarrow> Panic ''reflect: slice index out of range''
           | VSlice (Some (b, off, n, c)) \<Rightarrow>
               (if i < n then
                  (case slice_elem env t of
                     Some e \<Rightarrow>
                       (case rd h (fst b, snd b @ [off + i]) of
                          Some x \<Rightarrow> Done (RV e x (Some (fst b, snd b @ [off + i])) ro)
                        | None \<Rightarrow> Stuck ''dangling slice'')
                   | None \<Rightarrow> Stuck ''slice data of a non-slice type'')
                else Panic ''reflect: slice index out of range'')
           | VArray xs \<Rightarrow>
               (if i < length xs then
                  (case array_elem env t of
                     Some e \<Rightarrow>
                       Done (RV e (xs ! i) (map_option (\<lambda>p. (fst p, snd p @ [i])) a) ro)
                   | None \<Rightarrow> Stuck ''array data of a non-array type'')
                else Panic ''reflect: array index out of range'')
           | _ \<Rightarrow> Panic ''reflect: call of reflect.Value.Index on a value without elements''))"

definition NumField :: "tenv \<Rightarrow> rv \<Rightarrow> nat res" where
  "NumField env v =
     (case v of
        Invalid \<Rightarrow> Panic ''reflect: call of reflect.Value.NumField on zero Value''
      | RV t d a ro \<Rightarrow>
          (case d of
             VStruct xs \<Rightarrow>
               (case struct_fields env t of
                  Some fs \<Rightarrow> Done (length fs)
                | None \<Rightarrow> Stuck ''struct data of a non-struct type'')
           | _ \<Rightarrow> Panic ''reflect: call of reflect.Value.NumField on a non-struct''))"

definition Field :: "tenv \<Rightarrow> rv \<Rightarrow> nat \<Rightarrow> rv res" where
  \<comment> \<open>\<^verbatim>\<open>v.Field(i)\<close>: addressable when the struct is, read-only when the field is unexported.\<close>
  "Field env v i =
     (case v of
        Invalid \<Rightarrow> Panic ''reflect: call of reflect.Value.Field on zero Value''
      | RV t d a ro \<Rightarrow>
          (case d of
             VStruct xs \<Rightarrow>
               (case struct_fields env t of
                  Some fs \<Rightarrow>
                    (if i < length fs then
                       (if i < length xs then
                          Done (RV (snd (snd (fs ! i))) (xs ! i)
                                  (map_option (\<lambda>p. (fst p, snd p @ [i])) a)
                                  (ro \<or> \<not> fst (snd (fs ! i))))
                        else Stuck ''struct data shorter than its type'')
                     else Panic ''reflect: Field index out of range'')
                | None \<Rightarrow> Stuck ''struct data of a non-struct type'')
           | _ \<Rightarrow> Panic ''reflect: call of reflect.Value.Field on a non-struct''))"

subsection \<open>Conversion and assignment\<close>

text \<open>
  \<^verbatim>\<open>v.Convert(t)\<close> for the conversions that keep the Kind, and into an interface type:
  identical underlying types, unnamed pointer types with identical underlying base types,
  and a type that implements the interface. The conversions between different Kinds
  (between numeric kinds, string and byte slice, slice and array) change the data; the
  cloner never asks for one, since the clone of a value has the Kind of the value.
\<close>

definition convertible :: "tenv \<Rightarrow> ty \<Rightarrow> ty \<Rightarrow> bool" where
  "convertible env dst src =
     (identical_underlying env dst src
      \<or> (case dst of TPtr de \<Rightarrow> (case src of TPtr se \<Rightarrow> identical_underlying env de se
                                   | _ \<Rightarrow> False)
         | _ \<Rightarrow> False))"

definition is_iface_ty :: "tenv \<Rightarrow> ty \<Rightarrow> bool" where
  "is_iface_ty env t = (case underlying env t of Some (TIface ms) \<Rightarrow> True | _ \<Rightarrow> False)"

definition box :: "ty \<Rightarrow> val \<Rightarrow> val" where
  \<comment> \<open>the interface value holding a value of the given type\<close>
  "box t d = (case d of VIfaceNil \<Rightarrow> VIfaceNil | VIface dt x \<Rightarrow> VIface dt x | _ \<Rightarrow> VIface t d)"

definition Convert :: "tenv \<Rightarrow> rv \<Rightarrow> ty \<Rightarrow> rv res" where
  "Convert env v t =
     (case v of
        Invalid \<Rightarrow> Panic ''reflect: call of reflect.Value.Convert on zero Value''
      | RV vt d a ro \<Rightarrow>
          if convertible env t vt then Done (RV t d None ro)
          else if implements env t vt then Done (RV t (box vt d) None ro)
          else Panic ''reflect.Value.Convert: value cannot be converted to type'')"

definition assignTo :: "tenv \<Rightarrow> rv \<Rightarrow> ty \<Rightarrow> val res" where
  \<comment> \<open>\<^verbatim>\<open>mustBeExported\<close> and \<^verbatim>\<open>assignTo\<close>, as \<^verbatim>\<open>Set\<close> and \<^verbatim>\<open>SetMapIndex\<close> apply them\<close>
  "assignTo env x t =
     (case x of
        Invalid \<Rightarrow> Panic ''reflect: call of reflect.Value.Set on zero Value''
      | RV xt d a ro \<Rightarrow>
          if ro then Panic ''reflect: value obtained using unexported field''
          else if directlyAssignable env t xt then Done d
          else if implements env t xt then Done (box xt d)
          else Panic ''reflect.Set: value is not assignable to type'')"

definition Set :: "tenv \<Rightarrow> state \<Rightarrow> rv \<Rightarrow> rv \<Rightarrow> state res" where
  \<comment> \<open>\<^verbatim>\<open>v.Set(x)\<close>\<close>
  "Set env st v x =
     (case v of
        RV t d (Some p) False \<Rightarrow>
          bnd (assignTo env x t) (\<lambda>y.
            case wr (heap st) p y of
              Some h \<Rightarrow> Done (st\<lparr>heap := h\<rparr>)
            | None \<Rightarrow> Stuck ''write to a dangling address'')
      | _ \<Rightarrow> Panic ''reflect: reflect.Value.Set using unaddressable value'')"

definition Interface_assert :: "tenv \<Rightarrow> rv \<Rightarrow> ty \<Rightarrow> val res" where
  \<comment> \<open>\<^verbatim>\<open>result.Interface().(T)\<close>\<close>
  "Interface_assert env v T =
     (case v of
        Invalid \<Rightarrow> Panic ''reflect: call of reflect.Value.Interface on zero Value''
      | RV t d a ro \<Rightarrow>
          if ro then Panic ''reflect.Value.Interface: cannot return value obtained from unexported field''
          else (case box t d of
                  VIface dt x \<Rightarrow>
                    if is_iface_ty env T
                    then (if implements env T dt then Done (VIface dt x)
                          else Panic ''interface conversion: missing method'')
                    else (if dt = T then Done x
                          else Panic ''interface conversion: interface {} is not T'')
                | _ \<Rightarrow> Panic ''interface conversion: interface is nil''))"

subsection \<open>Allocation\<close>

definition New :: "tenv \<Rightarrow> state \<Rightarrow> ty \<Rightarrow> (state \<times> rv) res" where
  \<comment> \<open>\<^verbatim>\<open>reflect.New(t)\<close>: a pointer to a new zero value\<close>
  "New env st t =
     (case zero_val env (length env) t of
        Some z \<Rightarrow> (case alloc st (CVal z) of
                     (st', b) \<Rightarrow> Done (st', RV (TPtr t) (VPtr (Some (b, []))) None False))
      | None \<Rightarrow> Stuck ''type not declared'')"

definition MakeSlice :: "tenv \<Rightarrow> state \<Rightarrow> ty \<Rightarrow> nat \<Rightarrow> nat \<Rightarrow> (state \<times> rv) res" where
  "MakeSlice env st t n c =
     (case slice_elem env t of
        Some e \<Rightarrow>
          (if c < n then Panic ''reflect.MakeSlice: len > cap''
           else (case zero_val env (length env) e of
                   Some z \<Rightarrow>
                     (case alloc st (CVal (VArray (replicate c z))) of
                        (st', b) \<Rightarrow> Done (st', RV t (VSlice (Some ((b, []), 0, n, c))) None False))
                 | None \<Rightarrow> Stuck ''type not declared''))
      | None \<Rightarrow> Panic ''reflect.MakeSlice of non-slice type'')"

definition MakeMap :: "tenv \<Rightarrow> state \<Rightarrow> ty \<Rightarrow> (state \<times> rv) res" where
  "MakeMap env st t =
     (case map_types env t of
        Some kte \<Rightarrow>
          (case alloc st (CMap []) of (st', b) \<Rightarrow> Done (st', RV t (VMap (Some b)) None False))
      | None \<Rightarrow> Panic ''reflect.MakeMap of non-map type'')"

subsection \<open>Maps\<close>

fun map_upd :: "(val \<times> val) list \<Rightarrow> val \<Rightarrow> val \<Rightarrow> (val \<times> val) list" where
  "map_upd [] k v = [(k, v)]"
| "map_upd ((k', v') # kvs) k v = (if k' = k then (k, v) # kvs else (k', v') # map_upd kvs k v)"

definition map_cell :: "tenv \<Rightarrow> cell list \<Rightarrow> rv \<Rightarrow> (ty \<times> ty \<times> bool \<times> (val \<times> val) list) res" where
  \<comment> \<open>key type, element type, read-only flag and entries of a map Value\<close>
  "map_cell env h v =
     (case v of
        Invalid \<Rightarrow> Panic ''reflect: call of a map method on zero Value''
      | RV t d a ro \<Rightarrow>
          (case d of
             VMap x \<Rightarrow>
               (case map_types env t of
                  Some (kt, e) \<Rightarrow>
                    (case x of
                       None \<Rightarrow> Done (kt, e, ro, [])
                     | Some m \<Rightarrow>
                         (if m < length h then
                            (case h ! m of CMap kvs \<Rightarrow> Done (kt, e, ro, kvs)
                             | _ \<Rightarrow> Stuck ''not a map cell'')
                          else Stuck ''dangling map''))
                | None \<Rightarrow> Stuck ''map data of a non-map type'')
           | _ \<Rightarrow> Panic ''reflect: call of a map method on a non-map''))"

definition MapKeys :: "tenv \<Rightarrow> cell list \<Rightarrow> rv \<Rightarrow> rv list res" where
  \<comment> \<open>\<^verbatim>\<open>v.MapKeys()\<close>, in the order in which the cell lists the entries\<close>
  "MapKeys env h v =
     bnd (map_cell env h v) (\<lambda>(kt, e, ro, kvs). Done (map (\<lambda>kv. RV kt (fst kv) None ro) kvs))"

definition MapIndex :: "tenv \<Rightarrow> cell list \<Rightarrow> rv \<Rightarrow> rv \<Rightarrow> rv res" where
  "MapIndex env h v key =
     bnd (map_cell env h v) (\<lambda>(kt, e, ro, kvs).
       bnd (assignTo env key kt) (\<lambda>k.
         case map_of kvs k of Some x \<Rightarrow> Done (RV e x None ro) | None \<Rightarrow> Done Invalid))"

definition SetMapIndex :: "tenv \<Rightarrow> state \<Rightarrow> rv \<Rightarrow> rv \<Rightarrow> rv \<Rightarrow> state res" where
  "SetMapIndex env st v key elem =
     bnd (map_cell env (heap st) v) (\<lambda>(kt, e, ro, kvs).
       if ro then Panic ''reflect: map obtained using unexported field''
       else bnd (assignTo env key kt) (\<lambda>k.
         case v of
           RV t (VMap (Some m)) a r \<Rightarrow>
             (if IsValid elem
              then bnd (assignTo env elem e) (\<lambda>x.
                     Done (st\<lparr>heap := (heap st)[m := CMap (map_upd kvs k x)]\<rparr>))
              else Done (st\<lparr>heap := (heap st)[m := CMap (filter (\<lambda>kv. fst kv \<noteq> k) kvs)]\<rparr>))
         | _ \<Rightarrow> Panic ''assignment to entry in nil map''))"


section \<open>The cloner\<close>

text \<open>
  The four routines that \<^verbatim>\<open>clone\<close> dispatches to call \<^verbatim>\<open>clone\<close> back; they take the
  recursive call as the parameter \<open>rec\<close>. \<^verbatim>\<open>clone\<close> itself recurses on a budget that
  bounds the depth of the calls, since the source recursion need not end.
\<close>

definition isNillable :: "rv \<Rightarrow> bool" where
  "isNillable v = (case Kind v of KChan \<Rightarrow> True | KInterface \<Rightarrow> True | KPtr \<Rightarrow> True
                    | KFunc \<Rightarrow> True | _ \<Rightarrow> False)"

definition not_nil_value :: "rv \<Rightarrow> bool res" where
  \<comment> \<open>\<^verbatim>\<open>!isNillable(x) || !x.IsNil()\<close>\<close>
  "not_nil_value x = (if \<not> isNillable x then Done True else bnd (IsNil x) (\<lambda>b. Done (\<not> b)))"

definition visited :: "state \<Rightarrow> rv \<Rightarrow> rv \<Rightarrow> rv option" where
  \<comment> \<open>the lookup of \<^verbatim>\<open>clonePtr\<close>: \<^verbatim>\<open>c.ptrs[v.Type()][v.Elem().UnsafeAddr()]\<close>, for \<open>e = v.Elem()\<close>\<close>
  "visited st v e =
     (if CanAddr e then
        (case v of
           RV t d a ro \<Rightarrow>
             (case ptrs st t of
                Some pm \<Rightarrow> (case e of RV et x (Some p) r \<Rightarrow> pm p | _ \<Rightarrow> None)
              | None \<Rightarrow> None)
         | Invalid \<Rightarrow> None)
      else None)"

definition register :: "state \<Rightarrow> ty \<Rightarrow> addr \<Rightarrow> rv \<Rightarrow> state" where
  \<comment> \<open>\<^verbatim>\<open>ptrs := c.ptrs[t]; if ptrs == nil { ... }; ptrs[p] = x\<close>\<close>
  "register st t p x =
     st\<lparr>ptrs := (ptrs st)(t \<mapsto> (case ptrs st t of None \<Rightarrow> Map.empty | Some pm \<Rightarrow> pm)(p \<mapsto> x))\<rparr>"

text \<open>One iteration of the loop of \<^verbatim>\<open>cloneSlice\<close>, at index \<open>i\<close>.\<close>

definition cloneSlice_step ::
  "(state \<Rightarrow> rv \<Rightarrow> (state \<times> rv) res) \<Rightarrow> tenv \<Rightarrow> rv \<Rightarrow> rv \<Rightarrow> nat \<Rightarrow> state \<Rightarrow> state res" where
  "cloneSlice_step rec env v arr i s =
     bnd (Index env (heap s) v i) (\<lambda>el.
     bnd (rec s el) (\<lambda>(s', val).
       if \<not> IsValid val then Done s'
       else
         bnd (Index env (heap s') arr i) (\<lambda>item.
           if \<not> CanSet item then Done s'
           else
             bnd (Type item) (\<lambda>it.
             bnd (Convert env val it) (\<lambda>cv. Set env s' item cv)))))"

definition cloneSlice ::
  "(state \<Rightarrow> rv \<Rightarrow> (state \<times> rv) res) \<Rightarrow> tenv \<Rightarrow> state \<Rightarrow> rv \<Rightarrow> (state \<times> rv) res" where
  "cloneSlice rec env st v =
     bnd (IsNil v) (\<lambda>nil.
       if nil then bnd (Type v) (\<lambda>t. bnd (Zero env t) (\<lambda>z. Done (st, z)))
       else
         bnd (Type v) (\<lambda>t. bnd (Len (heap st) v) (\<lambda>n.
         bnd (MakeSlice env st t n n) (\<lambda>(st1, arr).
         bnd (for_loop [0..<n] (cloneSlice_step rec env v arr) st1)
           (\<lambda>st2. Done (st2, arr))))))"

text \<open>One iteration of the loop of \<^verbatim>\<open>cloneMap\<close>, at a key of the source.\<close>

definition cloneMap_step ::
  "(state \<Rightarrow> rv \<Rightarrow> (state \<times> rv) res) \<Rightarrow> tenv \<Rightarrow> rv \<Rightarrow> rv \<Rightarrow> rv \<Rightarrow> state \<Rightarrow> state res" where
  "cloneMap_step rec env v clonedMap key s =
     bnd (MapIndex env (heap s) v key) (\<lambda>value.
     bnd (rec s key) (\<lambda>(s1, clonedKey).
     bnd (rec s1 value) (\<lambda>(s2, clonedValue).
     bnd (not_nil_value clonedKey) (\<lambda>ck.
     bnd (if ck then bnd (Type key) (Convert env clonedKey) else Done clonedKey)
       (\<lambda>clonedKey.
     bnd (not_nil_value clonedValue) (\<lambda>cv.
     bnd (if cv \<and> IsValid clonedValue
          then bnd (Type value) (Convert env clonedValue) else Done clonedValue)
       (\<lambda>clonedValue.
     bnd (if \<not> IsValid clonedValue
          then bnd (map_cell env (heap s2) clonedMap) (\<lambda>(kt, e, ro, kvs). Zero env e)
          else Done clonedValue)
       (\<lambda>clonedValue. SetMapIndex env s2 clonedMap clonedKey clonedValue))))))))"

definition cloneMap ::
  "(state \<Rightarrow> rv \<Rightarrow> (state \<times> rv) res) \<Rightarrow> tenv \<Rightarrow> state \<Rightarrow> rv \<Rightarrow> (state \<times> rv) res" where
  "cloneMap rec env st v =
     bnd (IsNil v) (\<lambda>nil.
       if nil then bnd (Type v) (\<lambda>t. bnd (Zero env t) (\<lambda>z. Done (st, z)))
       else
         bnd (Type v) (\<lambda>t.
         bnd (MakeMap env st t) (\<lambda>(st1, clonedMap).
         bnd (MapKeys env (heap st1) v) (\<lambda>keys.
         bnd (for_loop keys (cloneMap_step rec env v clonedMap) st1)
           (\<lambda>st2. Done (st2, clonedMap))))))"

definition clonePtr ::
  "(state \<Rightarrow> rv \<Rightarrow> (state \<times> rv) res) \<Rightarrow> tenv \<Rightarrow> state \<Rightarrow> rv \<Rightarrow> (state \<times> rv) res" where
  "clonePtr rec env st v =
     bnd (IsNil v) (\<lambda>nil.
       if nil then bnd (Type v) (\<lambda>t. bnd (Zero env t) (\<lambda>z. Done (st, z)))
       else
         bnd (Elem env (heap st) v) (\<lambda>el.
           case visited st v el of
             Some newVal \<Rightarrow> Done (st, newVal)
           | None \<Rightarrow>
               bnd (rec st el) (\<lambda>(st1, newVal).
                 case visited st1 v el of
                   Some newVal \<Rightarrow> Done (st1, newVal)
                 | None \<Rightarrow>
                     bnd (Type newVal) (\<lambda>nt.
                     bnd (New env st1 nt) (\<lambda>(st2, clonedPtr).
                     bnd (Elem env (heap st2) clonedPtr) (\<lambda>target.
                     bnd (Set env st2 target newVal) (\<lambda>st3. Done (st3, clonedPtr))))))))"

text \<open>One iteration of the loop of \<^verbatim>\<open>cloneStruct\<close>, at field \<open>i\<close>.\<close>

definition cloneStruct_step ::
  "(state \<Rightarrow> rv \<Rightarrow> (state \<times> rv) res) \<Rightarrow> tenv \<Rightarrow> rv \<Rightarrow> rv \<Rightarrow> nat \<Rightarrow> state \<Rightarrow> state res" where
  "cloneStruct_step rec env v clonedStruct i s =
     bnd (Field env clonedStruct i) (\<lambda>newStructValue.
       if \<not> CanSet newStructValue then Done s
       else
         bnd (Field env v i) (\<lambda>f.
         bnd (rec s f) (\<lambda>(s', clonedVal).
           if \<not> IsValid clonedVal then Done s'
           else
             bnd (Type newStructValue) (\<lambda>ft.
             bnd (Convert env clonedVal ft) (\<lambda>cv. Set env s' newStructValue cv)))))"

definition cloneStruct ::
  "(state \<Rightarrow> rv \<Rightarrow> (state \<times> rv) res) \<Rightarrow> tenv \<Rightarrow> state \<Rightarrow> rv \<Rightarrow> (state \<times> rv) res" where
  "cloneStruct rec env st v =
     bnd (Type v) (\<lambda>t.
     bnd (New env st t) (\<lambda>(st1, clonedStructPtr).
     bnd (Elem env (heap st1) clonedStructPtr) (\<lambda>clonedStruct.
     bnd (if CanAddr v
          then bnd (Type clonedStructPtr) (\<lambda>pt. bnd (UnsafeAddr v) (\<lambda>p.
                 Done (register st1 pt p clonedStructPtr)))
          else Done st1) (\<lambda>st2.
     bnd (NumField env v) (\<lambda>n.
     bnd (for_loop [0..<n] (cloneStruct_step rec env v clonedStruct) st2)
       (\<lambda>st3. bnd (Elem env (heap st3) clonedStructPtr) (\<lambda>r. Done (st3, r))))))))"

primrec clone :: "nat \<Rightarrow> tenv \<Rightarrow> state \<Rightarrow> rv \<Rightarrow> (state \<times> rv) res" where
  "clone 0 env st v = OutOfFuel"
| "clone (Suc n) env st v =
     (case Kind v of
        KInvalid \<Rightarrow> Done (st, Invalid)
      | KBool \<Rightarrow> bnd (Bool_of v) (\<lambda>b. Done (st, ValueOf TBool (VScalar (SBool b))))
      | KInt \<Rightarrow> bnd (Int_of v) (\<lambda>x. Done (st, ValueOf TInt (VScalar (SInt (ucast x)))))
      | KInt8 \<Rightarrow> bnd (Int_of v) (\<lambda>x. Done (st, ValueOf TInt8 (VScalar (SInt8 (ucast x)))))
      | KInt16 \<Rightarrow> bnd (Int_of v) (\<lambda>x. Done (st, ValueOf TInt16 (VScalar (SInt16 (ucast x)))))
      | KInt32 \<Rightarrow> bnd (Int_of v) (\<lambda>x. Done (st, ValueOf TInt32 (VScalar (SInt32 (ucast x)))))
      | KInt64 \<Rightarrow> bnd (Int_of v) (\<lambda>x. Done (st, ValueOf TInt64 (VScalar (SInt64 x))))
      | KUint \<Rightarrow> bnd (Uint_of v) (\<lambda>x. Done (st, ValueOf TUint (VScalar (SUint (ucast x)))))
      | KUint8 \<Rightarrow> bnd (Uint_of v) (\<lambda>x. Done (st, ValueOf TUint8 (VScalar (SUint8 (ucast x)))))
      | KUint16 \<Rightarrow> bnd (Uint_of v) (\<lambda>x. Done (st, ValueOf TUint16 (VScalar (SUint16 (ucast x)))))
      | KUint32 \<Rightarrow> bnd (Uint_of v) (\<lambda>x. Done (st, ValueOf TUint32 (VScalar (SUint32 (ucast x)))))
      | KUint64 \<Rightarrow> bnd (Uint_of v) (\<lambda>x. Done (st, ValueOf TUint64 (VScalar (SUint64 x))))
      | KFloat32 \<Rightarrow>
          bnd (Float_of v) (\<lambda>x. Done (st, ValueOf TFloat32 (VScalar (SFloat32 (f64_to_f32 x)))))
      | KFloat64 \<Rightarrow> bnd (Float_of v) (\<lambda>x. Done (st, ValueOf TFloat64 (VScalar (SFloat64 x))))
      | KComplex64 \<Rightarrow>
          bnd (Complex_of v) (\<lambda>(x, y).
            Done (st, ValueOf TComplex64 (VScalar (SComplex64 (f64_to_f32 x) (f64_to_f32 y)))))
      | KComplex128 \<Rightarrow>
          bnd (Complex_of v) (\<lambda>(x, y). Done (st, ValueOf TComplex128 (VScalar (SComplex128 x y))))
      | KString \<Rightarrow> bnd (String_of v) (\<lambda>x. Done (st, ValueOf TString (VScalar (SString x))))
      | KArray \<Rightarrow> cloneSlice (clone n env) env st v
      | KSlice \<Rightarrow> cloneSlice (clone n env) env st v
      | KMap \<Rightarrow> cloneMap (clone n env) env st v
      | KPtr \<Rightarrow> clonePtr (clone n env) env st v
      | KStruct \<Rightarrow> cloneStruct (clone n env) env st v
      | KFunc \<Rightarrow> Done (st, v)
      | KInterface \<Rightarrow> bnd (Elem env (heap st) v) (clone n env st)
      | _ \<Rightarrow> bnd (Type v) (\<lambda>t. bnd (Zero env t) (\<lambda>z. Done (st, z))))"

subsection \<open>The entry points\<close>

text \<open>
  An entry point takes the budget, the type environment, the heap, the type argument
  \<open>T\<close> and the argument; it returns the heap after the call and the result. The cloner
  and its table live for one call.
\<close>

definition new_cloner :: "cell list \<Rightarrow> state" where
  "new_cloner h = \<lparr>heap = h, ptrs = Map.empty\<rparr>"

definition finish :: "tenv \<Rightarrow> ty \<Rightarrow> (state \<times> rv) res \<Rightarrow> (cell list \<times> val) res" where
  \<comment> \<open>the end shared by the four entry points\<close>
  "finish env T r =
     bnd r (\<lambda>(st, result).
       if Kind result = KInvalid
       then (case zero_val env (length env) T of
               Some zeroValue \<Rightarrow> Done (heap st, zeroValue)
             | None \<Rightarrow> Stuck ''type not declared'')
       else bnd (Interface_assert env result T) (\<lambda>x. Done (heap st, x)))"

definition DeepClone :: "nat \<Rightarrow> tenv \<Rightarrow> cell list \<Rightarrow> ty \<Rightarrow> val \<Rightarrow> (cell list \<times> val) res" where
  "DeepClone n env h T src = finish env T (clone n env (new_cloner h) (ValueOf T src))"

definition CloneStruct ::
  "nat \<Rightarrow> tenv \<Rightarrow> cell list \<Rightarrow> ty \<Rightarrow> ty \<Rightarrow> val \<Rightarrow> (cell list \<times> val) res" where
  \<comment> \<open>\<open>S\<close> is the static type of the argument, which the parameter type \<^verbatim>\<open>interface{}\<close> hides\<close>
  "CloneStruct n env h T S src =
     finish env T (cloneStruct (clone n env) env (new_cloner h) (ValueOf S src))"

definition CloneSlice :: "nat \<Rightarrow> tenv \<Rightarrow> cell list \<Rightarrow> ty \<Rightarrow> val \<Rightarrow> (cell list \<times> val) res" where
  "CloneSlice n env h T src =
     finish env T (cloneSlice (clone n env) env (new_cloner h) (ValueOf T src))"

definition CloneMap :: "nat \<Rightarrow> tenv \<Rightarrow> cell list \<Rightarrow> ty \<Rightarrow> val \<Rightarrow> (cell list \<times> val) res" where
  "CloneMap n env h T src =
     finish env T (cloneMap (clone n env) env (new_cloner h) (ValueOf T src))"


section \<open>Scenarios\<close>




text \<open>\<^verbatim>\<open>map[string]int32{"a": 1, "b": 2}\<close>\<close>

definition h_ab :: "cell list" where
  "h_ab = [CMap [(VScalar (SString ''a''), VScalar (SInt32 1)),
                 (VScalar (SString ''b''), VScalar (SInt32 2))]]"

text \<open>\<^verbatim>\<open>x := 7; p := &x; s := []*int{p, p}\<close>\<close>

definition h_two_ptrs :: "cell list" where
  "h_two_ptrs =
     [CVal (VScalar (SInt 7)), CVal (VArray [VPtr (Some (0, [])), VPtr (Some (0, []))])]"

text \<open>\<^verbatim>\<open>var x any = 7; s := []*any{&x}\<close>\<close>

definition h_ptr_any :: "cell list" where
  "h_ptr_any = [CVal (VIface TInt (VScalar (SInt 7))), CVal (VArray [VPtr (Some (0, []))])]"

text \<open>\<^verbatim>\<open>a := []int{1, 2, 3, 4}; s := a[1:3]\<close>, of length 2 and capacity 3\<close>

definition h_spare :: "cell list" where
  "h_spare =
     [CVal (VArray [VScalar (SInt 1), VScalar (SInt 2), VScalar (SInt 3), VScalar (SInt 4)])]"

definition is_panic :: "'a res \<Rightarrow> bool" where
  "is_panic r = (case r of Panic s \<Rightarrow> True | _ \<Rightarrow> False)"

definition nil_data :: "val \<Rightarrow> bool" where
  "nil_data d = (d = VSlice None \<or> d = VMap None \<or> d = VPtr None \<or> d = VFunc None
                 \<or> d = VChan None \<or> d = VUnsafePointer None)"

subsection \<open>Predicates of the proofs\<close>

text \<open>A heap extends another when it keeps every cell of it unchanged; a table is below
  another when every entry of it is still present.\<close>

definition extends :: "cell list \<Rightarrow> cell list \<Rightarrow> bool" where
  "extends h h' = (length h \<le> length h' \<and> take (length h) h' = h)"

definition tbl_le :: "(ty \<rightharpoonup> (addr \<rightharpoonup> rv)) \<Rightarrow> (ty \<rightharpoonup> (addr \<rightharpoonup> rv)) \<Rightarrow> bool" where
  "tbl_le m m' = (\<forall>t pm p x. m t = Some pm \<and> pm p = Some x
                    \<longrightarrow> (\<exists>pm' x'. m' t = Some pm' \<and> pm' p = Some x'))"

definition frame :: "state \<Rightarrow> state \<Rightarrow> bool" where
  "frame st st' = (extends (heap st) (heap st') \<and> tbl_le (ptrs st) (ptrs st'))"

definition rec_frame :: "(state \<Rightarrow> rv \<Rightarrow> (state \<times> rv) res) \<Rightarrow> bool" where
  "rec_frame rec = (\<forall>st v st' r. rec st v = Done (st', r) \<longrightarrow> frame st st')"

section \<open>Properties\<close>

lemmas reflect_defs =
  bnd_def Zero_def ValueOf_def kind_of_val_def Kind_def IsValid_def CanAddr_def CanSet_def
  Type_def UnsafeAddr_def IsNil_def Bool_of_def Int_of_def Uint_of_def Float_of_def
  Complex_of_def String_of_def rd_def wr_def alloc_def Elem_def Len_def Index_def
  NumField_def Field_def convertible_def is_iface_ty_def box_def Convert_def assignTo_def
  Set_def Interface_assert_def New_def MakeSlice_def MakeMap_def map_cell_def MapKeys_def
  MapIndex_def SetMapIndex_def underlying_def has_name_def methods_of_def implements_def
  identical_underlying_def directlyAssignable_def slice_elem_def array_elem_def ptr_elem_def
  map_types_def struct_fields_def

lemmas cloner_defs =
  isNillable_def not_nil_value_def visited_def register_def cloneSlice_step_def cloneSlice_def
  cloneMap_step_def cloneMap_def clonePtr_def cloneStruct_step_def cloneStruct_def new_cloner_def finish_def DeepClone_def CloneStruct_def
  CloneSlice_def CloneMap_def

subsection \<open>Zero values\<close>

lemma zero_val_named:
  "map_of env nm = Some (u, vm, pm) \<Longrightarrow>
   zero_val env (length env) (TNamed nm) = zero_val env (length env - 1) u"
  by (cases env) auto

lemma zero_val_slice:
  "underlying env T = Some (TSlice e) \<Longrightarrow> zero_val env (length env) T = Some (VSlice None)"
  by (cases T) (auto simp: underlying_def zero_val_named split: option.splits)

lemma zero_val_map:
  "underlying env T = Some (TMap k e) \<Longrightarrow> zero_val env (length env) T = Some (VMap None)"
  by (cases T) (auto simp: underlying_def zero_val_named split: option.splits)

lemma zero_val_iface:
  "underlying env T = Some (TIface ms) \<Longrightarrow> zero_val env (length env) T = Some VIfaceNil"
  by (cases T) (auto simp: underlying_def zero_val_named split: option.splits)

lemma finish_same_type:
  "\<not> is_iface_ty env T \<Longrightarrow> kind_of_val d \<noteq> KInterface \<Longrightarrow>
   finish env T (Done (st, RV T d a False)) = Done (heap st, d)"
  by (cases d)
     (auto simp: finish_def bnd_def Kind_def Interface_assert_def box_def kind_of_val_def
           split: scalar.splits)

subsection \<open>What a successful step did\<close>

lemma bnd_Done: "bnd m f = Done y \<longleftrightarrow> (\<exists>x. m = Done x \<and> f x = Done y)"
  by (cases m) (auto simp: bnd_def)

lemma extends_refl: "extends h h"
  by (simp add: extends_def)

lemma extends_trans:
  assumes "extends a b" and "extends b c"
  shows "extends a c"
proof -
  from assms have l: "length a \<le> length b" "length b \<le> length c"
    and t: "take (length a) b = a" "take (length b) c = b"
    by (simp_all add: extends_def)
  have "take (length a) c = take (length a) (take (length b) c)"
    using l by (simp add: min_def)
  then show ?thesis using l t by (simp add: extends_def)
qed

lemma extends_append: "extends h (h @ ys)"
  by (simp add: extends_def)

lemma extends_update: "extends h h' \<Longrightarrow> length h \<le> i \<Longrightarrow> extends h (h'[i := c])"
  by (simp add: extends_def)

lemma extends_nth: "extends h h' \<Longrightarrow> i < length h \<Longrightarrow> h' ! i = h ! i"
  by (metis extends_def nth_take)

lemma extends_length: "extends h h' \<Longrightarrow> length h \<le> length h'"
  by (simp add: extends_def)

lemma tbl_le_refl: "tbl_le m m"
  by (auto simp: tbl_le_def)

lemma tbl_le_trans: "tbl_le a b \<Longrightarrow> tbl_le b c \<Longrightarrow> tbl_le a c"
  unfolding tbl_le_def by blast

lemma frame_refl: "frame st st"
  by (simp add: frame_def extends_refl tbl_le_refl)

lemma frame_trans: "frame a b \<Longrightarrow> frame b c \<Longrightarrow> frame a c"
  by (auto simp: frame_def intro: extends_trans tbl_le_trans)

lemma for_loop_inv:
  assumes "for_loop xs body s = Done s'" and "I s"
    and "\<And>x s s'. x \<in> set xs \<Longrightarrow> I s \<Longrightarrow> body x s = Done s' \<Longrightarrow> I s'"
  shows "I s'"
  using assms
proof (induction xs arbitrary: s)
  case Nil
  then show ?case by simp
next
  case (Cons x xs)
  from Cons.prems(1) obtain s1 where b: "body x s = Done s1" and l: "for_loop xs body s1 = Done s'"
    by (auto simp: bnd_Done)
  have s1: "I s1" using Cons.prems(3) [OF _ Cons.prems(2) b] by simp
  have step: "I t'" if "y \<in> set xs" "I t" "body y t = Done t'" for y t t'
    using Cons.prems(3) [of y t t'] that by simp
  show ?case using Cons.IH [OF l s1 step] .
qed

lemma Set_Done:
  assumes "Set env st v x = Done st'"
  shows "\<exists>t d p y c c'. v = RV t d (Some p) False \<and> assignTo env x t = Done y \<and> fst p < length (heap st)
      \<and> heap st ! fst p = CVal c \<and> wr_path c (snd p) y = Some c'
      \<and> st' = st\<lparr>heap := (heap st)[fst p := CVal c']\<rparr>"
proof (cases v)
  case Invalid
  then show ?thesis using assms by (simp add: Set_def)
next
  case (RV t d a ro)
  show ?thesis
  proof (cases a)
    case None
    then show ?thesis using assms RV by (simp add: Set_def)
  next
    case (Some p)
    show ?thesis
    proof (cases ro)
      case True
      then show ?thesis using assms RV Some by (simp add: Set_def)
    next
      case False
      from assms RV Some False obtain y where y: "assignTo env x t = Done y"
        and w: "(case wr (heap st) p y of Some h \<Rightarrow> Done (st\<lparr>heap := h\<rparr>)
                  | None \<Rightarrow> Stuck ''write to a dangling address'') = Done st'"
        by (auto simp: Set_def bnd_Done)
      from w obtain h' where h': "wr (heap st) p y = Some h'" and st': "st' = st\<lparr>heap := h'\<rparr>"
        by (auto split: option.splits)
      from h' have lt: "fst p < length (heap st)"
        by (auto simp: wr_def split: if_splits)
      from h' lt obtain c where c: "heap st ! fst p = CVal c"
        by (cases "heap st ! fst p") (auto simp: wr_def)
      from h' lt c obtain c' where "wr_path c (snd p) y = Some c'" "h' = (heap st)[fst p := CVal c']"
        by (auto simp: wr_def)
      then show ?thesis using RV Some False y lt c st' by blast
    qed
  qed
qed

lemma MakeSlice_Done:
  assumes "MakeSlice env st t n c = Done (st', arr)"
  shows "\<exists>e z. slice_elem env t = Some e \<and> zero_val env (length env) e = Some z \<and> n \<le> c
      \<and> st' = st\<lparr>heap := heap st @ [CVal (VArray (replicate c z))]\<rparr>
      \<and> arr = RV t (VSlice (Some ((length (heap st), []), 0, n, c))) None False"
  using assms
  by (auto simp: MakeSlice_def alloc_def split: option.splits if_splits)

lemma MakeMap_Done:
  assumes "MakeMap env st t = Done (st', m)"
  shows "\<exists>kt e. map_types env t = Some (kt, e)
      \<and> st' = st\<lparr>heap := heap st @ [CMap []]\<rparr>
      \<and> m = RV t (VMap (Some (length (heap st)))) None False"
  using assms
  by (auto simp: MakeMap_def alloc_def split: option.splits)

lemma New_Done:
  assumes "New env st t = Done (st', p)"
  shows "\<exists>z. zero_val env (length env) t = Some z
      \<and> st' = st\<lparr>heap := heap st @ [CVal z]\<rparr>
      \<and> p = RV (TPtr t) (VPtr (Some (length (heap st), []))) None False"
  using assms
  by (auto simp: New_def alloc_def split: option.splits)

lemma Index_slice_Done:
  assumes "Index env h (RV t (VSlice (Some (b, off, n, c))) a ro) i = Done el"
  shows "\<exists>e x. i < n \<and> slice_elem env t = Some e \<and> rd h (fst b, snd b @ [off + i]) = Some x
      \<and> el = RV e x (Some (fst b, snd b @ [off + i])) ro"
  using assms
  by (auto simp: Index_def split: option.splits if_splits)

lemma map_cell_Some_Done:
  assumes "map_cell env h (RV t (VMap (Some m)) a ro) = Done (kt, e, r, kvs)"
  shows "map_types env t = Some (kt, e) \<and> r = ro \<and> m < length h \<and> h ! m = CMap kvs"
  using assms
  by (auto simp: map_cell_def split: option.splits if_splits cell.splits)

lemma SetMapIndex_Done:
  assumes "SetMapIndex env st (RV t (VMap (Some m)) a ro) key elem = Done st'"
  shows "\<exists>kvs. m < length (heap st) \<and> st' = st\<lparr>heap := (heap st)[m := CMap kvs]\<rparr>"
  using assms
  by (auto simp: SetMapIndex_def bnd_Done split: if_splits dest!: map_cell_Some_Done)

lemma Elem_ptr_Done:
  assumes "Elem env h (RV t (VPtr (Some p)) a ro) = Done el"
  shows "\<exists>e x. ptr_elem env t = Some e \<and> rd h p = Some x \<and> el = RV e x (Some p) ro"
  using assms
  by (auto simp: Elem_def split: option.splits)

lemma Field_Done:
  assumes "Field env (RV t d a ro) i = Done f"
  shows "\<exists>xs fs. d = VStruct xs \<and> struct_fields env t = Some fs \<and> i < length fs \<and> i < length xs
     \<and> f = RV (snd (snd (fs ! i))) (xs ! i) (map_option (\<lambda>p. (fst p, snd p @ [i])) a)
              (ro \<or> \<not> fst (snd (fs ! i)))"
  using assms
  by (cases d) (auto simp: Field_def split: option.splits if_splits)

subsection \<open>The shape of a successful run of each routine\<close>

lemma cloneSlice_cases [consumes 1, case_names nil build]:
  assumes "cloneSlice rec env st v = Done (st', r)"
  obtains (nil) t where "IsNil v = Done True" "Type v = Done t" "Zero env t = Done r" "st' = st"
  | (build) t n st1 where "IsNil v = Done False" "Type v = Done t" "Len (heap st) v = Done n"
      "MakeSlice env st t n n = Done (st1, r)"
      "for_loop [0..<n] (cloneSlice_step rec env v r) st1 = Done st'"
  using assms
  by (auto simp: cloneSlice_def bnd_Done split: if_splits)

lemma cloneSlice_step_cases [consumes 1, case_names skip noset set]:
  assumes "cloneSlice_step rec env v arr i s = Done s'"
  obtains (skip) el where "Index env (heap s) v i = Done el" "rec s el = Done (s', Invalid)"
  | (noset) el val item where "Index env (heap s) v i = Done el" "rec s el = Done (s', val)"
      "IsValid val" "Index env (heap s') arr i = Done item" "\<not> CanSet item"
  | (set) el s1 val item it cv where "Index env (heap s) v i = Done el" "rec s el = Done (s1, val)"
      "IsValid val" "Index env (heap s1) arr i = Done item" "CanSet item" "Type item = Done it"
      "Convert env val it = Done cv" "Set env s1 item cv = Done s'"
proof -
  from assms obtain el s1 val where a: "Index env (heap s) v i = Done el" "rec s el = Done (s1, val)"
    and rest: "(if \<not> IsValid val then Done s1
       else
         bnd (Index env (heap s1) arr i) (\<lambda>item.
           if \<not> CanSet item then Done s1
           else
             bnd (Type item) (\<lambda>it.
             bnd (Convert env val it) (\<lambda>cv. Set env s1 item cv)))) = Done s'"
    by (auto simp: cloneSlice_step_def bnd_Done)
  show thesis
  proof (cases val)
    case Invalid
    with a rest show thesis by (auto simp: IsValid_def intro: skip)
  next
    case (RV vt d ad ro)
    then have v: "IsValid val" by (simp add: IsValid_def)
    with rest obtain item where it: "Index env (heap s1) arr i = Done item"
      and rest2: "(if \<not> CanSet item then Done s1
           else
             bnd (Type item) (\<lambda>it.
             bnd (Convert env val it) (\<lambda>cv. Set env s1 item cv))) = Done s'"
      by (auto simp: bnd_Done)
    show thesis
    proof (cases "CanSet item")
      case False
      with rest2 a v it show thesis by (auto intro: noset)
    next
      case True
      with rest2 a v it show thesis by (auto simp: bnd_Done intro: set)
    qed
  qed
qed

lemma cloneStruct_step_cases [consumes 1, case_names unexported skip set]:
  assumes "cloneStruct_step rec env v clonedStruct i s = Done s'"
  obtains (unexported) nsv where "Field env clonedStruct i = Done nsv" "\<not> CanSet nsv" "s' = s"
  | (skip) nsv f where "Field env clonedStruct i = Done nsv" "CanSet nsv"
      "Field env v i = Done f" "rec s f = Done (s', Invalid)"
  | (set) nsv f s1 val ft cv where "Field env clonedStruct i = Done nsv" "CanSet nsv"
      "Field env v i = Done f" "rec s f = Done (s1, val)" "IsValid val" "Type nsv = Done ft"
      "Convert env val ft = Done cv" "Set env s1 nsv cv = Done s'"
proof -
  from assms obtain nsv where n: "Field env clonedStruct i = Done nsv"
    and rest: "(if \<not> CanSet nsv then Done s
       else
         bnd (Field env v i) (\<lambda>f.
         bnd (rec s f) (\<lambda>(s', clonedVal).
           if \<not> IsValid clonedVal then Done s'
           else
             bnd (Type nsv) (\<lambda>ft.
             bnd (Convert env clonedVal ft) (\<lambda>cv. Set env s' nsv cv))))) = Done s'"
    by (auto simp: cloneStruct_step_def bnd_Done)
  show thesis
  proof (cases "CanSet nsv")
    case False
    with n rest show thesis by (auto intro: unexported)
  next
    case True
    with rest obtain f s1 val where f: "Field env v i = Done f" "rec s f = Done (s1, val)"
      and rest2: "(if \<not> IsValid val then Done s1
           else
             bnd (Type nsv) (\<lambda>ft.
             bnd (Convert env val ft) (\<lambda>cv. Set env s1 nsv cv))) = Done s'"
      by (auto simp: bnd_Done)
    show thesis
    proof (cases val)
      case Invalid
      with n True f rest2 show thesis by (auto simp: IsValid_def intro: skip)
    next
      case (RV vt d ad ro)
      then have "IsValid val" by (simp add: IsValid_def)
      with n True f rest2 show thesis by (auto simp: bnd_Done intro: set)
    qed
  qed
qed

lemma cloneMap_cases [consumes 1, case_names nil build]:
  assumes "cloneMap rec env st v = Done (st', r)"
  obtains (nil) t where "IsNil v = Done True" "Type v = Done t" "Zero env t = Done r" "st' = st"
  | (build) t st1 keys where "IsNil v = Done False" "Type v = Done t"
      "MakeMap env st t = Done (st1, r)" "MapKeys env (heap st1) v = Done keys"
      "for_loop keys (cloneMap_step rec env v r) st1 = Done st'"
  using assms
  by (auto simp: cloneMap_def bnd_Done split: if_splits)

lemma cloneMap_step_Done:
  assumes "cloneMap_step rec env v clonedMap key s = Done s'"
  shows "\<exists>value s1 clonedKey s2 clonedValue k x.
      MapIndex env (heap s) v key = Done value \<and> rec s key = Done (s1, clonedKey)
      \<and> rec s1 value = Done (s2, clonedValue)
      \<and> (k = clonedKey \<or> (\<exists>kt. Convert env clonedKey kt = Done k))
      \<and> (x = clonedValue \<or> (\<exists>vt. Convert env clonedValue vt = Done x) \<or> (\<exists>e. Zero env e = Done x))
      \<and> SetMapIndex env s2 clonedMap k x = Done s'"
proof -
  from assms obtain "value" s1 clonedKey s2 clonedValue ck k cv x0 x where
    a: "MapIndex env (heap s) v key = Done value" "rec s key = Done (s1, clonedKey)"
       "rec s1 value = Done (s2, clonedValue)"
    and k: "(if ck then bnd (Type key) (Convert env clonedKey) else Done clonedKey) = Done k"
    and x0: "(if cv \<and> IsValid clonedValue
          then bnd (Type value) (Convert env clonedValue) else Done clonedValue) = Done x0"
    and x: "(if \<not> IsValid x0
          then bnd (map_cell env (heap s2) clonedMap) (\<lambda>(kt, e, ro, kvs). Zero env e)
          else Done x0) = Done x"
    and set: "SetMapIndex env s2 clonedMap k x = Done s'"
    by (auto simp: cloneMap_step_def bnd_Done)
  from k have k': "k = clonedKey \<or> (\<exists>kt. Convert env clonedKey kt = Done k)"
    by (auto simp: bnd_Done split: if_splits)
  from x0 have x0': "x0 = clonedValue \<or> (\<exists>vt. Convert env clonedValue vt = Done x0)"
    by (auto simp: bnd_Done split: if_splits)
  from x have "x = x0 \<or> (\<exists>e. Zero env e = Done x)"
    by (auto simp: bnd_Done split: if_splits)
  with x0' have "x = clonedValue \<or> (\<exists>vt. Convert env clonedValue vt = Done x) \<or> (\<exists>e. Zero env e = Done x)"
    by auto
  with a k' set show ?thesis by blast
qed

lemma clonePtr_cases [consumes 1, case_names nil hit late fresh]:
  assumes "clonePtr rec env st v = Done (st', r)"
  obtains (nil) t where "IsNil v = Done True" "Type v = Done t" "Zero env t = Done r" "st' = st"
  | (hit) el where "IsNil v = Done False" "Elem env (heap st) v = Done el"
      "visited st v el = Some r" "st' = st"
  | (late) el newVal where "IsNil v = Done False" "Elem env (heap st) v = Done el"
      "visited st v el = None" "rec st el = Done (st', newVal)" "visited st' v el = Some r"
  | (fresh) el st1 newVal nt st2 target where "IsNil v = Done False"
      "Elem env (heap st) v = Done el" "visited st v el = None" "rec st el = Done (st1, newVal)"
      "visited st1 v el = None" "Type newVal = Done nt" "New env st1 nt = Done (st2, r)"
      "Elem env (heap st2) r = Done target" "Set env st2 target newVal = Done st'"
proof -
  from assms obtain b where b: "IsNil v = Done b"
    by (auto simp: clonePtr_def bnd_Done)
  show thesis
  proof (cases b)
    case True
    with assms b show thesis
      by (auto simp: clonePtr_def bnd_Done intro: nil)
  next
    case False
    with b have nb: "IsNil v = Done False" by simp
    from assms nb obtain el where el: "Elem env (heap st) v = Done el"
      and rest: "(case visited st v el of
             Some newVal \<Rightarrow> Done (st, newVal)
           | None \<Rightarrow>
               bnd (rec st el) (\<lambda>(st1, newVal).
                 case visited st1 v el of
                   Some newVal \<Rightarrow> Done (st1, newVal)
                 | None \<Rightarrow>
                     bnd (Type newVal) (\<lambda>nt.
                     bnd (New env st1 nt) (\<lambda>(st2, clonedPtr).
                     bnd (Elem env (heap st2) clonedPtr) (\<lambda>target.
                     bnd (Set env st2 target newVal) (\<lambda>st3. Done (st3, clonedPtr))))))) = Done (st', r)"
      by (auto simp: clonePtr_def bnd_Done)
    show thesis
    proof (cases "visited st v el")
      case (Some x)
      with rest nb el show thesis by (auto intro: hit)
    next
      case None
      with rest obtain st1 newVal where r1: "rec st el = Done (st1, newVal)"
        and rest2: "(case visited st1 v el of
                   Some newVal \<Rightarrow> Done (st1, newVal)
                 | None \<Rightarrow>
                     bnd (Type newVal) (\<lambda>nt.
                     bnd (New env st1 nt) (\<lambda>(st2, clonedPtr).
                     bnd (Elem env (heap st2) clonedPtr) (\<lambda>target.
                     bnd (Set env st2 target newVal) (\<lambda>st3. Done (st3, clonedPtr)))))) = Done (st', r)"
        by (auto simp: bnd_Done)
      show thesis
      proof (cases "visited st1 v el")
        case (Some x)
        with rest2 have "st' = st1" "r = x" by auto
        with Some nb el None r1 show thesis by (auto intro: late)
      next
        case N2: None
        with rest2 obtain nt st2 target where "Type newVal = Done nt" "New env st1 nt = Done (st2, r)"
          "Elem env (heap st2) r = Done target" "Set env st2 target newVal = Done st'"
          by (auto simp: bnd_Done)
        with nb el None r1 N2 show thesis by (rule fresh)
      qed
    qed
  qed
qed

lemma cloneStruct_Done:
  assumes "cloneStruct rec env st v = Done (st', r)"
  shows "\<exists>t st1 clonedStructPtr clonedStruct st2 n.
      Type v = Done t \<and> New env st t = Done (st1, clonedStructPtr)
      \<and> Elem env (heap st1) clonedStructPtr = Done clonedStruct
      \<and> (st2 = st1 \<and> \<not> CanAddr v
         \<or> (\<exists>pt p. CanAddr v \<and> Type clonedStructPtr = Done pt \<and> UnsafeAddr v = Done p
                   \<and> st2 = register st1 pt p clonedStructPtr))
      \<and> NumField env v = Done n
      \<and> for_loop [0..<n] (cloneStruct_step rec env v clonedStruct) st2 = Done st'
      \<and> Elem env (heap st') clonedStructPtr = Done r"
proof -
  from assms obtain t st1 csp cs st2 where a: "Type v = Done t" "New env st t = Done (st1, csp)"
      "Elem env (heap st1) csp = Done cs"
    and reg: "(if CanAddr v
          then bnd (Type csp) (\<lambda>pt. bnd (UnsafeAddr v) (\<lambda>p.
                 Done (register st1 pt p csp)))
          else Done st1) = Done st2"
    and rest: "bnd (NumField env v) (\<lambda>n.
     bnd (for_loop [0..<n] (cloneStruct_step rec env v cs) st2)
       (\<lambda>st3. bnd (Elem env (heap st3) csp) (\<lambda>r. Done (st3, r)))) = Done (st', r)"
    by (auto simp: cloneStruct_def bnd_Done)
  from reg have reg': "(st2 = st1 \<and> \<not> CanAddr v
         \<or> (\<exists>pt p. CanAddr v \<and> Type csp = Done pt \<and> UnsafeAddr v = Done p
                   \<and> st2 = register st1 pt p csp))"
    by (cases "CanAddr v") (auto simp: bnd_Done)
  from rest obtain n where "NumField env v = Done n"
    "for_loop [0..<n] (cloneStruct_step rec env v cs) st2 = Done st'"
    "Elem env (heap st') csp = Done r"
    by (auto simp: bnd_Done)
  with a reg' show ?thesis by blast
qed

lemma frame_heap_update:
  "frame st s \<Longrightarrow> length (heap st) \<le> i \<Longrightarrow> frame st (s\<lparr>heap := (heap s)[i := c]\<rparr>)"
  by (simp add: frame_def extends_update)

lemma frame_alloc: "frame st (st\<lparr>heap := heap st @ ys\<rparr>)"
  by (simp add: frame_def extends_append tbl_le_refl)

lemma frame_register: "frame st (register st t p x)"
  by (auto simp: frame_def register_def extends_refl tbl_le_def)

lemma frame_length: "frame st s \<Longrightarrow> length (heap st) \<le> length (heap s)"
  by (simp add: frame_def extends_length)

lemma rec_frameD: "rec_frame rec \<Longrightarrow> rec st v = Done (st', r) \<Longrightarrow> frame st st'"
  by (auto simp: rec_frame_def)

lemma cloneSlice_step_frame:
  assumes rf: "rec_frame rec" and fr: "frame st s" and A: "length (heap st) \<le> A"
    and run: "cloneSlice_step rec env v (RV t (VSlice (Some ((A, []), 0, n, c))) None False) i s = Done s'"
  shows "frame st s'"
  using run
proof (cases rule: cloneSlice_step_cases)
  case (skip el)
  then show ?thesis using rf fr by (blast intro: frame_trans rec_frameD)
next
  case (noset el val item)
  then show ?thesis using rf fr by (blast intro: frame_trans rec_frameD)
next
  case (set el s1 val item it cv)
  have f1: "frame st s1" using set(2) rf fr by (blast intro: frame_trans rec_frameD)
  from Index_slice_Done [OF set(4)] obtain e x where item: "item = RV e x (Some (A, [0 + i])) False"
    by auto
  from Set_Done [OF set(8)] item obtain c' where "s' = s1\<lparr>heap := (heap s1)[A := CVal c']\<rparr>"
    by auto
  then show ?thesis using frame_heap_update [OF f1 A] by simp
qed

lemma cloneSlice_frame:
  assumes rf: "rec_frame rec" and run: "cloneSlice rec env st v = Done (st', r)"
  shows "frame st st'"
  using run
proof (cases rule: cloneSlice_cases)
  case (nil t)
  then show ?thesis by (simp add: frame_refl)
next
  case (build t n st1)
  from MakeSlice_Done [OF build(4)] obtain z where
    st1: "st1 = st\<lparr>heap := heap st @ [CVal (VArray (replicate n z))]\<rparr>"
    and arr: "r = RV t (VSlice (Some ((length (heap st), []), 0, n, n))) None False"
    by auto
  have f1: "frame st st1" unfolding st1 by (rule frame_alloc)
  show ?thesis
  proof (rule for_loop_inv [OF build(5), where I = "frame st"])
    show "frame st st1" by (rule f1)
  next
    fix x s s'
    assume "frame st s" and "cloneSlice_step rec env v r x s = Done s'"
    then show "frame st s'"
      using cloneSlice_step_frame [OF rf _ le_refl] arr by blast
  qed
qed

lemma cloneMap_step_frame:
  assumes rf: "rec_frame rec" and fr: "frame st s" and A: "length (heap st) \<le> A"
    and run: "cloneMap_step rec env v (RV t (VMap (Some A)) None False) key s = Done s'"
  shows "frame st s'"
proof -
  from cloneMap_step_Done [OF run] obtain "value" s1 clonedKey s2 clonedValue k x where
    r1: "rec s key = Done (s1, clonedKey)" and r2: "rec s1 value = Done (s2, clonedValue)"
    and set: "SetMapIndex env s2 (RV t (VMap (Some A)) None False) k x = Done s'"
    by blast
  have f2: "frame st s2" using r1 r2 rf fr by (blast intro: frame_trans rec_frameD)
  from SetMapIndex_Done [OF set] obtain kvs where "s' = s2\<lparr>heap := (heap s2)[A := CMap kvs]\<rparr>"
    by auto
  then show ?thesis using frame_heap_update [OF f2 A] by simp
qed

lemma cloneMap_frame:
  assumes rf: "rec_frame rec" and run: "cloneMap rec env st v = Done (st', r)"
  shows "frame st st'"
  using run
proof (cases rule: cloneMap_cases)
  case (nil t)
  then show ?thesis by (simp add: frame_refl)
next
  case (build t st1 keys)
  from MakeMap_Done [OF build(3)] have
    st1: "st1 = st\<lparr>heap := heap st @ [CMap []]\<rparr>"
    and m: "r = RV t (VMap (Some (length (heap st)))) None False"
    by auto
  have f1: "frame st st1" unfolding st1 by (rule frame_alloc)
  show ?thesis
  proof (rule for_loop_inv [OF build(5), where I = "frame st"])
    show "frame st st1" by (rule f1)
  next
    fix x s s'
    assume "frame st s" and "cloneMap_step rec env v r x s = Done s'"
    then show "frame st s'"
      using cloneMap_step_frame [OF rf _ le_refl] m by blast
  qed
qed

lemma clonePtr_frame:
  assumes rf: "rec_frame rec" and run: "clonePtr rec env st v = Done (st', r)"
  shows "frame st st'"
  using run
proof (cases rule: clonePtr_cases)
  case (nil t)
  then show ?thesis by (simp add: frame_refl)
next
  case (hit el)
  then show ?thesis by (simp add: frame_refl)
next
  case (late el newVal)
  then show ?thesis using rf by (blast intro: rec_frameD)
next
  case (fresh el st1 newVal nt st2 target)
  have f1: "frame st st1" using fresh(4) rf by (blast intro: rec_frameD)
  from New_Done [OF fresh(7)] obtain z where
    st2: "st2 = st1\<lparr>heap := heap st1 @ [CVal z]\<rparr>"
    and r: "r = RV (TPtr nt) (VPtr (Some (length (heap st1), []))) None False"
    by auto
  have f2: "frame st st2" unfolding st2 using f1 frame_alloc by (blast intro: frame_trans)
  from Elem_ptr_Done [OF fresh(8) [unfolded r]] obtain e x where
    target: "target = RV e x (Some (length (heap st1), [])) False"
    by auto
  from Set_Done [OF fresh(9)] target obtain c' where
    "st' = st2\<lparr>heap := (heap st2)[length (heap st1) := CVal c']\<rparr>"
    by auto
  then show ?thesis using frame_heap_update [OF f2, of "length (heap st1)"] frame_length [OF f1]
    by simp
qed

lemma cloneStruct_step_frame:
  assumes rf: "rec_frame rec" and fr: "frame st s" and A: "length (heap st) \<le> A"
    and run: "cloneStruct_step rec env v (RV e x (Some (A, [])) False) i s = Done s'"
  shows "frame st s'"
  using run
proof (cases rule: cloneStruct_step_cases)
  case (unexported nsv)
  then show ?thesis using fr by simp
next
  case (skip nsv f)
  then show ?thesis using rf fr by (blast intro: frame_trans rec_frameD)
next
  case (set nsv f s1 val ft cv)
  have f1: "frame st s1" using set(4) rf fr by (blast intro: frame_trans rec_frameD)
  from Field_Done [OF set(1)] obtain ft' d ro where nsv: "nsv = RV ft' d (Some (A, [i])) ro"
    by auto
  from Set_Done [OF set(8)] nsv obtain c' where "s' = s1\<lparr>heap := (heap s1)[A := CVal c']\<rparr>"
    by auto
  then show ?thesis using frame_heap_update [OF f1 A] by simp
qed

lemma cloneStruct_frame:
  assumes rf: "rec_frame rec" and run: "cloneStruct rec env st v = Done (st', r)"
  shows "frame st st'"
proof -
  from cloneStruct_Done [OF run] obtain t st1 csp cs st2 n where
    new: "New env st t = Done (st1, csp)" and el: "Elem env (heap st1) csp = Done cs"
    and reg: "st2 = st1 \<and> \<not> CanAddr v
         \<or> (\<exists>pt p. CanAddr v \<and> Type csp = Done pt \<and> UnsafeAddr v = Done p
                   \<and> st2 = register st1 pt p csp)"
    and loop: "for_loop [0..<n] (cloneStruct_step rec env v cs) st2 = Done st'"
    by blast
  from New_Done [OF new] obtain z where
    st1: "st1 = st\<lparr>heap := heap st @ [CVal z]\<rparr>"
    and csp: "csp = RV (TPtr t) (VPtr (Some (length (heap st), []))) None False"
    by auto
  from Elem_ptr_Done [OF el [unfolded csp]] obtain e x where
    cs: "cs = RV e x (Some (length (heap st), [])) False"
    by auto
  have f1: "frame st st1" unfolding st1 by (rule frame_alloc)
  have f2: "frame st st2" using reg f1 frame_register by (blast intro: frame_trans)
  show ?thesis
  proof (rule for_loop_inv [OF loop, where I = "frame st"])
    show "frame st st2" by (rule f2)
  next
    fix i s s'
    assume "frame st s" and "cloneStruct_step rec env v cs i s = Done s'"
    then show "frame st s'"
      using cloneStruct_step_frame [OF rf _ le_refl] cs by blast
  qed
qed

lemma clone_scalar_state:
  assumes "clone (Suc n) env st v = Done (st', r)"
    and "Kind v \<notin> {KArray, KSlice, KMap, KPtr, KStruct, KInterface}"
  shows "st' = st"
  using assms
  by (cases "Kind v") (auto simp: bnd_Done split: prod.splits)

lemma clone_frame: "rec_frame (clone n env)"
proof (induction n)
  case 0
  show ?case by (simp add: rec_frame_def)
next
  case (Suc n)
  show ?case
    unfolding rec_frame_def
  proof (intro allI impI)
    fix st v st' r
    assume run: "clone (Suc n) env st v = Done (st', r)"
    consider "Kind v = KArray \<or> Kind v = KSlice" | "Kind v = KMap" | "Kind v = KPtr"
      | "Kind v = KStruct" | "Kind v = KInterface"
      | "Kind v \<notin> {KArray, KSlice, KMap, KPtr, KStruct, KInterface}"
      by auto
    then show "frame st st'"
    proof cases
      case 1
      with run have "cloneSlice (clone n env) env st v = Done (st', r)" by auto
      then show ?thesis by (rule cloneSlice_frame [OF Suc])
    next
      case 2
      with run have "cloneMap (clone n env) env st v = Done (st', r)" by simp
      then show ?thesis by (rule cloneMap_frame [OF Suc])
    next
      case 3
      with run have "clonePtr (clone n env) env st v = Done (st', r)" by simp
      then show ?thesis by (rule clonePtr_frame [OF Suc])
    next
      case 4
      with run have "cloneStruct (clone n env) env st v = Done (st', r)" by simp
      then show ?thesis by (rule cloneStruct_frame [OF Suc])
    next
      case 5
      with run obtain e where "clone n env st e = Done (st', r)" by (auto simp: bnd_Done)
      then show ?thesis using Suc by (rule rec_frameD [rotated])
    next
      case 6
      from clone_scalar_state [OF run 6] show ?thesis by (simp add: frame_refl)
    qed
  qed
qed

subsection \<open>Cycles\<close>


subsection \<open>Panics\<close>

text \<open>
  C4. The claim is that every entry point returns normally on every input, arrays and
  named scalars included. \<^verbatim>\<open>clone\<close> sends an array to \<^verbatim>\<open>cloneSlice\<close>, whose first
  call \<^verbatim>\<open>v.IsNil()\<close> panics on the Kind Array: \<^verbatim>\<open>DeepClone\<close> of any array panics.
\<close>

theorem array_panics:
  "DeepClone (Suc (Suc n)) env h T (VArray xs)
     = Panic ''reflect: call of reflect.Value.IsNil on a value that cannot be nil''"
  by (simp add: reflect_defs cloner_defs)

text \<open>\<^verbatim>\<open>type MyInt int; DeepClone(MyInt(5))\<close>: the clone is an \<^verbatim>\<open>int\<close>, and the final
  type assertion to \<^verbatim>\<open>MyInt\<close> panics.\<close>

lemma named_scalar_panics:
  "DeepClone (Suc n) [(''MyInt'', TInt, [], [])] [] (TNamed ''MyInt'') (VScalar (SInt 5))
     = Panic ''interface conversion: interface {} is not T''"
  by (simp add: reflect_defs cloner_defs)

subsection \<open>Slices\<close>

text \<open>
  C9. The clone of a non-nil slice is a slice over a new backing array at offset 0 whose
  capacity equals its length, the length of the source, whatever the capacity of the
  source.
\<close>

theorem cloneSlice_cap:
  "cloneSlice rec env st (RV t (VSlice (Some (b, off, n, c))) a ro) = Done (st', r)
   \<Longrightarrow> r = RV t (VSlice (Some ((length (heap st), []), 0, n, n))) None False"
  by (auto simp: cloneSlice_def bnd_def IsNil_def Type_def Len_def MakeSlice_def alloc_def
           split: res.splits option.splits if_splits)

theorem cloneSlice_cap_witness:
  "cloneSlice (clone (Suc 0) []) [] (new_cloner h_spare)
       (RV (TSlice TInt) (VSlice (Some ((0, []), 1, 2, 3))) None False)
     = Done (\<lparr>heap = h_spare @ [CVal (VArray [VScalar (SInt 2), VScalar (SInt 3)])],
              ptrs = Map.empty\<rparr>,
             RV (TSlice TInt) (VSlice (Some ((1, []), 0, 2, 2))) None False)
   \<and> RV (TSlice TInt) (VSlice (Some ((1, []), 0, 2, 2))) None False
     = RV (TSlice TInt) (VSlice (Some ((length (heap (new_cloner h_spare)), []), 0, 2, 2)))
         None False"
proof -
  have run: "cloneSlice (clone (Suc 0) []) [] (new_cloner h_spare)
       (RV (TSlice TInt) (VSlice (Some ((0, []), 1, 2, 3))) None False)
     = Done (\<lparr>heap = h_spare @ [CVal (VArray [VScalar (SInt 2), VScalar (SInt 3)])],
              ptrs = Map.empty\<rparr>,
             RV (TSlice TInt) (VSlice (Some ((1, []), 0, 2, 2))) None False)"
    by (simp add: reflect_defs cloner_defs h_spare_def upt_rec eval_nat_numeral)
  show ?thesis using cloneSlice_cap [OF run] run by simp
qed

subsection \<open>Nil collections\<close>

text \<open>
  C10. For a type \<open>T\<close> of Kind Slice, \<^verbatim>\<open>CloneSlice\<close> and \<^verbatim>\<open>DeepClone\<close> of the nil slice
  return the nil slice of type \<open>T\<close> and allocate nothing; for a type of Kind Map,
  \<^verbatim>\<open>CloneMap\<close> and \<^verbatim>\<open>DeepClone\<close> of the nil map return the nil map.
\<close>

theorem nil_stays_nil:
  "(underlying env T = Some (TSlice e) \<longrightarrow>
      CloneSlice n env h T (VSlice None) = Done (h, VSlice None)
      \<and> DeepClone (Suc n) env h T (VSlice None) = Done (h, VSlice None))
   \<and> (underlying env T = Some (TMap k e) \<longrightarrow>
      CloneMap n env h T (VMap None) = Done (h, VMap None)
      \<and> DeepClone (Suc n) env h T (VMap None) = Done (h, VMap None))"
proof -
  have s: "cloneSlice rec env (new_cloner h) (RV T (VSlice None) None False)
             = Done (new_cloner h, RV T (VSlice None) None False)"
    if "underlying env T = Some (TSlice e)" for rec
    using that by (simp add: cloneSlice_def bnd_def IsNil_def Type_def Zero_def zero_val_slice)
  have m: "cloneMap rec env (new_cloner h) (RV T (VMap None) None False)
             = Done (new_cloner h, RV T (VMap None) None False)"
    if "underlying env T = Some (TMap k e)" for rec
    using that by (simp add: cloneMap_def bnd_def IsNil_def Type_def Zero_def zero_val_map)
  have i1: "\<not> is_iface_ty env T" if "underlying env T = Some (TSlice e)"
    using that by (simp add: is_iface_ty_def)
  have i2: "\<not> is_iface_ty env T" if "underlying env T = Some (TMap k e)"
    using that by (simp add: is_iface_ty_def)
  show ?thesis
    using s m i1 i2
    by (simp add: CloneSlice_def CloneMap_def DeepClone_def ValueOf_def Kind_def kind_of_val_def
          finish_same_type new_cloner_def)
qed

theorem nil_stays_nil_witness:
  "underlying [(''Ints'', TSlice TInt, [], [])] (TNamed ''Ints'') = Some (TSlice TInt)
   \<and> CloneSlice 0 [(''Ints'', TSlice TInt, [], [])] h_spare (TNamed ''Ints'') (VSlice None)
       = Done (h_spare, VSlice None)
   \<and> DeepClone (Suc 0) [(''Ints'', TSlice TInt, [], [])] h_spare (TNamed ''Ints'') (VSlice None)
       = Done (h_spare, VSlice None)
   \<and> underlying [] (TMap TString TInt32) = Some (TMap TString TInt32)
   \<and> CloneMap 0 [] h_ab (TMap TString TInt32) (VMap None) = Done (h_ab, VMap None)
   \<and> DeepClone (Suc 0) [] h_ab (TMap TString TInt32) (VMap None) = Done (h_ab, VMap None)"
proof -
  have u1: "underlying [(''Ints'', TSlice TInt, [], [])] (TNamed ''Ints'') = Some (TSlice TInt)"
    by (simp add: underlying_def)
  have u2: "underlying [] (TMap TString TInt32) = Some (TMap TString TInt32)"
    by (simp add: underlying_def)
  show ?thesis
    using nil_stays_nil [where env = "[(''Ints'', TSlice TInt, [], [])]" and T = "TNamed ''Ints''"
                           and e = TInt and n = 0 and h = h_spare]
          nil_stays_nil [where env = "[]" and T = "TMap TString TInt32" and k = TString
                           and e = TInt32 and n = 0 and h = h_ab] u1 u2
    by simp
qed

end
